theory Spec2Isabelle
  imports Main
begin

section \<open>The Date built-in, as the calendar component uses it\<close>

text \<open>
  A JavaScript \<open>Date\<close> is a time value: the number of milliseconds since the epoch, here
  an \<open>int\<close>. The functions below are the abstract operations of the language standard
  that \<open>getDate\<close>, \<open>getMonth\<close>, \<open>getFullYear\<close> and \<open>new Date(year, month, day)\<close> are
  defined by. The host time zone is taken to be UTC, so local time and the time value
  coincide. A date string of a reservation row enters the model as the time value that
  \<open>new Date(string)\<close> parses it to.
\<close>

definition msPerDay :: int where
  "msPerDay = 86400000"

definition Day :: "int \<Rightarrow> int" where
  "Day t = t div msPerDay"

definition DaysInYear :: "int \<Rightarrow> int" where
  "DaysInYear y =
     (if y mod 4 \<noteq> 0 then 365
      else if y mod 100 \<noteq> 0 then 366
      else if y mod 400 \<noteq> 0 then 365
      else 366)"

definition DayFromYear :: "int \<Rightarrow> int" where
  "DayFromYear y =
     365 * (y - 1970) + (y - 1969) div 4 - (y - 1901) div 100 + (y - 1601) div 400"

text \<open>
  \<open>YearFromTime(t)\<close> is the largest year \<open>y\<close> with \<open>DayFromYear y \<le> Day t\<close>. It is
  computed by a search from the estimate \<open>1970 + Day t div 365\<close>: upwards while the next
  year has begun, then downwards while the year has not begun.
\<close>

function year_up :: "int \<Rightarrow> int \<Rightarrow> int" where
  "year_up d y = (if DayFromYear (y + 1) \<le> d then year_up d (y + 1) else y)"
  by pat_completeness auto
termination
proof (relation "measure (\<lambda>(d, y). nat (d + 1 - DayFromYear (y + 1)))")
  show "wf (measure (\<lambda>(d, y). nat (d + 1 - DayFromYear (y + 1))))"
    by simp
next
  fix d y :: int
  assume le: "DayFromYear (y + 1) \<le> d"
  have "(y - 1968) div 4 \<le> (y - 1967) div 4"
    by (rule zdiv_mono1) simp_all
  moreover have "(y - 1899) div 100 \<le> (y - 1900) div 100 + 1"
    by linarith
  moreover have "(y - 1600) div 400 \<le> (y - 1599) div 400"
    by (rule zdiv_mono1) simp_all
  ultimately have "DayFromYear (y + 1) < DayFromYear (y + 1 + 1)"
    by (simp add: DayFromYear_def)
  with le show "((d, y + 1), (d, y)) \<in> measure (\<lambda>(d, y). nat (d + 1 - DayFromYear (y + 1)))"
    by simp
qed

function year_down :: "int \<Rightarrow> int \<Rightarrow> int" where
  "year_down d y = (if d < DayFromYear y then year_down d (y - 1) else y)"
  by pat_completeness auto
termination
proof (relation "measure (\<lambda>(d, y). nat (DayFromYear y - d))")
  show "wf (measure (\<lambda>(d, y). nat (DayFromYear y - d)))"
    by simp
next
  fix d y :: int
  assume less: "d < DayFromYear y"
  have "(y - 1970) div 4 \<le> (y - 1969) div 4"
    by (rule zdiv_mono1) simp_all
  moreover have "(y - 1901) div 100 \<le> (y - 1902) div 100 + 1"
    by linarith
  moreover have "(y - 1602) div 400 \<le> (y - 1601) div 400"
    by (rule zdiv_mono1) simp_all
  ultimately have "DayFromYear (y - 1) < DayFromYear y"
    by (simp add: DayFromYear_def)
  with less show "((d, y - 1), (d, y)) \<in> measure (\<lambda>(d, y). nat (DayFromYear y - d))"
    by simp
qed

definition YearFromDay :: "int \<Rightarrow> int" where
  "YearFromDay d = year_down d (year_up d (1970 + d div 365))"

definition YearFromTime :: "int \<Rightarrow> int" where
  "YearFromTime t = YearFromDay (Day t)"

definition InLeapYear :: "int \<Rightarrow> int" where
  "InLeapYear t = (if DaysInYear (YearFromTime t) = 365 then 0 else 1)"

definition DayWithinYear :: "int \<Rightarrow> int" where
  "DayWithinYear t = Day t - DayFromYear (YearFromTime t)"

definition MonthFromTime :: "int \<Rightarrow> int" where
  "MonthFromTime t =
     (let d = DayWithinYear t; l = InLeapYear t in
      if d < 31 then 0
      else if d < 59 + l then 1
      else if d < 90 + l then 2
      else if d < 120 + l then 3
      else if d < 151 + l then 4
      else if d < 181 + l then 5
      else if d < 212 + l then 6
      else if d < 243 + l then 7
      else if d < 273 + l then 8
      else if d < 304 + l then 9
      else if d < 334 + l then 10
      else 11)"

definition DateFromTime :: "int \<Rightarrow> int" where
  "DateFromTime t =
     (let d = DayWithinYear t; l = InLeapYear t; m = MonthFromTime t in
      if m = 0 then d + 1
      else if m = 1 then d - 30
      else if m = 2 then d - 58 - l
      else if m = 3 then d - 89 - l
      else if m = 4 then d - 119 - l
      else if m = 5 then d - 150 - l
      else if m = 6 then d - 180 - l
      else if m = 7 then d - 211 - l
      else if m = 8 then d - 242 - l
      else if m = 9 then d - 272 - l
      else if m = 10 then d - 303 - l
      else d - 333 - l)"

text \<open>
  \<open>MakeDay(year, month, date)\<close>: the month is normalised into \<open>0..11\<close> with the carry
  added to the year, and the day number of the first of that month is offset by
  \<open>date - 1\<close>, so \<open>date = 0\<close> is the last day of the month before.
\<close>

definition firstDayOfMonth :: "int \<Rightarrow> int \<Rightarrow> int" where
  "firstDayOfMonth ym mn =
     (let l = (if DaysInYear ym = 365 then 0 else 1) in
      DayFromYear ym +
      (if mn = 0 then 0
       else if mn = 1 then 31
       else if mn = 2 then 59 + l
       else if mn = 3 then 90 + l
       else if mn = 4 then 120 + l
       else if mn = 5 then 151 + l
       else if mn = 6 then 181 + l
       else if mn = 7 then 212 + l
       else if mn = 8 then 243 + l
       else if mn = 9 then 273 + l
       else if mn = 10 then 304 + l
       else 334 + l))"

definition MakeDay :: "int \<Rightarrow> int \<Rightarrow> int \<Rightarrow> int" where
  "MakeDay year month date = firstDayOfMonth (year + month div 12) (month mod 12) + date - 1"

definition newDate :: "int \<Rightarrow> int \<Rightarrow> int \<Rightarrow> int" where
  \<comment> \<open>\<open>new Date(year, month, day)\<close>: midnight at the start of that day\<close>
  "newDate year month date = MakeDay year month date * msPerDay"

definition getFullYear :: "int \<Rightarrow> int" where
  "getFullYear t = YearFromTime t"

definition getMonth :: "int \<Rightarrow> int" where
  "getMonth t = MonthFromTime t"

definition getDate :: "int \<Rightarrow> int" where
  "getDate t = DateFromTime t"


section \<open>The reservation calendar\<close>

text \<open>
  The rows the calendar works on. \<open>eq_id\<close> and \<open>eq_name\<close> are the fields \<open>id\<close> and
  \<open>name\<close> of \<open>Equipment\<close>, \<open>res_id\<close> is the field \<open>id\<close> of \<open>Reservation\<close>; the other
  fields keep their names. \<open>start_date\<close> and \<open>end_date\<close> hold the time values their
  strings parse to. \<open>reservation_items\<close> is the joined relation the query selects.
\<close>

record Customer =
  first_name :: string
  last_name :: string

record ReservationItem =
  equipment_id :: string

record Equipment =
  eq_id :: string
  eq_name :: string

record Reservation =
  res_id :: string
  customer :: Customer
  start_date :: int
  end_date :: int
  start_time :: string
  end_time :: string
  status :: string
  reservation_items :: "ReservationItem list"

record CalendarState =
  equipment :: "Equipment list"
  reservations :: "Reservation list"
  currentDate :: int
  loading :: bool

text \<open>The \<open>{ data, error }\<close> pair a query of the persistence client resolves to.\<close>

record 'a Response =
  data :: "'a option"
  error :: "string option"

subsection \<open>Loading the reservations of the month\<close>

definition startOfMonth :: "int \<Rightarrow> int" where
  "startOfMonth cur = newDate (getFullYear cur) (getMonth cur) 1"

definition endOfMonth :: "int \<Rightarrow> int" where
  "endOfMonth cur = newDate (getFullYear cur) (getMonth cur + 1) 0"

text \<open>
  The query that \<open>loadReservations\<close> builds, run on the rows of the \<open>reservations\<close>
  table: the inner join keeps the rows that have a reservation item, \<open>gte\<close> and \<open>lte\<close>
  compare the two date columns with the bounds of the month, \<open>neq\<close> drops the cancelled
  rows. No order is asked for, so the rows come back in the table's order.
\<close>

definition reservations_query :: "Reservation list \<Rightarrow> int \<Rightarrow> Reservation list" where
  "reservations_query tbl cur =
     filter (\<lambda>r. reservation_items r \<noteq> []
                \<and> startOfMonth cur \<le> start_date r
                \<and> end_date r \<le> endOfMonth cur
                \<and> status r \<noteq> ''cancelled'') tbl"

definition loadReservations :: "CalendarState \<Rightarrow> Reservation list Response \<Rightarrow> CalendarState" where
  "loadReservations s resp =
     (case error resp of
        Some e \<Rightarrow> s
      | None \<Rightarrow> s\<lparr>reservations := (case data resp of Some rows \<Rightarrow> rows | None \<Rightarrow> []),
                  loading := False\<rparr>)"

definition loadReservations_from :: "Reservation list \<Rightarrow> CalendarState \<Rightarrow> CalendarState" where
  \<comment> \<open>the load against a persistence layer that holds the table and answers the query\<close>
  "loadReservations_from tbl s =
     loadReservations s \<lparr>data = Some (reservations_query tbl (currentDate s)), error = None\<rparr>"

subsection \<open>Spans and labels\<close>

definition getDaysInMonth :: "int \<Rightarrow> int" where
  "getDaysInMonth cur = getDate (newDate (getFullYear cur) (getMonth cur + 1) 0)"

record Span =
  startDay :: int
  endDay :: int
  span :: int

definition getReservationSpan :: "Reservation \<Rightarrow> int \<Rightarrow> int \<Rightarrow> Span" where
  "getReservationSpan reservation monthStart monthEnd =
     (let start = start_date reservation;
          end' = end_date reservation;
          startDay = (if start < monthStart then 1 else getDate start);
          endDay = (if end' > monthEnd then getDate monthEnd else getDate end')
      in \<lparr>startDay = startDay, endDay = endDay, span = endDay - startDay + 1\<rparr>)"

text \<open>Numbers in template strings: the decimal digits, with a sign when negative.\<close>

fun show_nat :: "nat \<Rightarrow> string" where
  "show_nat n =
     (if n < 10 then [''0123456789'' ! n]
      else show_nat (n div 10) @ [''0123456789'' ! (n mod 10)])"

declare show_nat.simps [simp del]

definition show_int :: "int \<Rightarrow> string" where
  "show_int i = (if i < 0 then CHR ''-'' # show_nat (nat (- i)) else show_nat (nat i))"

definition days_between :: "int \<Rightarrow> int \<Rightarrow> int" where
  \<comment> \<open>\<open>Math.ceil((end.getTime() - start.getTime()) / (1000 * 60 * 60 * 24))\<close>\<close>
  "days_between start end' = - ((- (end' - start)) div msPerDay)"

definition formatCustomerName :: "string \<Rightarrow> string \<Rightarrow> string" where
  "formatCustomerName firstName lastName = lastName @ '' '' @ firstName"

definition formatDateRange :: "int \<Rightarrow> int \<Rightarrow> string \<Rightarrow> string \<Rightarrow> string" where
  "formatDateRange startDate endDate startTime endTime =
     (let days = days_between startDate endDate in
      if days \<ge> 4
      then show_int (getDate startDate) @ ''.'' @ show_int (getMonth startDate + 1) @ '' '' @ startTime
           @ '' - '' @ show_int (getDate endDate) @ ''.'' @ show_int (getMonth endDate + 1) @ '' '' @ endTime
      else show_int (getDate startDate) @ ''-'' @ show_int (getDate endDate))"

definition first_char :: "string \<Rightarrow> string" where
  \<comment> \<open>\<open>firstName[0]\<close> inside a template string: \<open>undefined\<close> for the empty string\<close>
  "first_char str = (case str of [] \<Rightarrow> ''undefined'' | c # _ \<Rightarrow> [c])"

definition getReservationContent :: "Reservation \<Rightarrow> int \<Rightarrow> bool \<Rightarrow> string" where
  "getReservationContent reservation cellWidth isMultiDay =
     (let lastName = last_name (customer reservation);
          firstName = first_name (customer reservation);
          days = days_between (start_date reservation) (end_date reservation)
      in
      if days \<ge> 4
      then formatCustomerName firstName lastName @ [CHR 0x0A]
           @ formatDateRange (start_date reservation) (end_date reservation)
               (start_time reservation) (end_time reservation)
      else if days \<ge> 2 \<and> days \<le> 3
      then (if cellWidth < 100 then lastName @ '' '' @ first_char firstName @ ''.''
            else lastName @ '' '' @ firstName) @ [CHR 0x0A]
           @ formatDateRange (start_date reservation) (end_date reservation)
               (start_time reservation) (end_time reservation)
      else lastName @ [CHR 0x0A] @ show_int (getDate (start_date reservation)))"

subsection \<open>The grid\<close>

text \<open>
  What the component returns for one day of one equipment row: the merged cell of a
  reservation (with its grid-column span, the multi-day flag and the label), nothing at
  all (\<open>null\<close>, a day inside a merged cell), or the empty day cell.
\<close>

datatype Cell =
  SpanCell Reservation int bool string
| NullCell
| EmptyCell

definition itemReservations :: "Equipment \<Rightarrow> Reservation list \<Rightarrow> Reservation list" where
  "itemReservations item rs =
     filter (\<lambda>r. list_ex (\<lambda>ri. equipment_id ri = eq_id item) (reservation_items r)) rs"

definition monthStart :: "int \<Rightarrow> int" where
  "monthStart cur = newDate (getFullYear cur) (getMonth cur) 1"

definition monthEnd :: "int \<Rightarrow> int" where
  "monthEnd cur = newDate (getFullYear cur) (getMonth cur + 1) 0"

definition covers :: "int \<Rightarrow> nat \<Rightarrow> Reservation \<Rightarrow> bool" where
  \<comment> \<open>the predicate of the \<open>find\<close>: the day of this cell lies in the reservation's span\<close>
  "covers cur dayIndex r =
     (let sp = getReservationSpan r (monthStart cur) (monthEnd cur)
      in int dayIndex + 1 \<ge> startDay sp \<and> int dayIndex + 1 \<le> endDay sp)"

definition cellReservation :: "CalendarState \<Rightarrow> Equipment \<Rightarrow> nat \<Rightarrow> Reservation option" where
  "cellReservation s item dayIndex =
     find (covers (currentDate s) dayIndex) (itemReservations item (reservations s))"

definition renderCell :: "CalendarState \<Rightarrow> Equipment \<Rightarrow> nat \<Rightarrow> Cell" where
  "renderCell s item dayIndex =
     (case cellReservation s item dayIndex of
        Some reservation \<Rightarrow>
          (let sp = getReservationSpan reservation (monthStart (currentDate s)) (monthEnd (currentDate s));
               isMultiDay = span sp > 1;
               cellWidth = 1240 div getDaysInMonth (currentDate s)
           in if int dayIndex + 1 = startDay sp
              then SpanCell reservation (span sp) isMultiDay
                     (getReservationContent reservation cellWidth isMultiDay)
              else NullCell)
      | None \<Rightarrow> EmptyCell)"

definition renderRow :: "CalendarState \<Rightarrow> Equipment \<Rightarrow> Cell list" where
  "renderRow s item = map (renderCell s item) [0..<nat (getDaysInMonth (currentDate s))]"

text \<open>
  What the component shows below its header: the spinner while \<open>loading\<close> is set, the
  rows of the equipment lines otherwise.
\<close>

datatype Screen =
  LoadingSpinner
| GridRows "Cell list list"

definition renderGrid :: "CalendarState \<Rightarrow> Screen" where
  "renderGrid s =
     (if loading s then LoadingSpinner else GridRows (map (renderRow s) (equipment s)))"

subsection \<open>Changing the month\<close>

text \<open>
  The two arrow buttons call \<open>setMonth\<close> on the current date with the month before or
  after and store the result. \<open>setMonth\<close> makes the day from the year of the date, the
  given month and the day of the month of the date, and keeps the time within the day.
  The effect on \<open>currentDate\<close> then starts the loads of the new month; until
  \<open>loadReservations\<close> has stored their result, the component renders the new month
  with the reservations it holds.
\<close>

definition TimeWithinDay :: "int \<Rightarrow> int" where
  "TimeWithinDay t = t mod msPerDay"

definition setMonth :: "int \<Rightarrow> int \<Rightarrow> int" where
  "setMonth t month =
     MakeDay (YearFromTime t) month (DateFromTime t) * msPerDay + TimeWithinDay t"

definition previousMonth :: "CalendarState \<Rightarrow> CalendarState" where
  "previousMonth s =
     s\<lparr>currentDate := setMonth (currentDate s) (getMonth (currentDate s) - 1)\<rparr>"



section \<open>The status pipeline\<close>

text \<open>
  A card of the pipeline is the \<open>Reservation\<close> of that component; \<open>card_id\<close> is its \<open>id\<close>,
  the only field the handlers read. \<open>col_id\<close>, \<open>col_title\<close> and \<open>col_reservations\<close> are
  the fields of \<open>PipelineColumn\<close>; the reservations of a column may be missing, which is
  what the optional chaining of \<open>findReservation\<close> allows for.
\<close>

record Card =
  card_id :: string
  card_customer :: Customer
  card_total_price :: int

record PipelineColumn =
  col_id :: string
  col_title :: string
  col_reservations :: "Card list option"

record PipelineData =
  data_columns :: "PipelineColumn list option"

datatype Notice =
  LoadFailed      \<comment> \<open>the message shown when the pipeline data cannot be loaded\<close>
| UpdateFailed    \<comment> \<open>the message shown when a status cannot be updated\<close>

record PipelineState =
  columns :: "PipelineColumn list"
  pl_loading :: bool
  pl_error :: "Notice option"
  activeId :: "string option"

text \<open>The remote procedures the components call, with their arguments.\<close>

datatype Rpc =
  Get_pipeline_data
| Update_reservation_pipeline_status string string
| Update_reservation_status string string string

text \<open>How an awaited call ends: it throws, or it resolves to a \<open>{ data, error }\<close> pair.\<close>

datatype 'a Outcome =
  Thrown
| Resolved "'a Response"

text \<open>
  An asynchronous handler runs up to its first \<open>await\<close> when it is called. Each handler
  is given by that first part, which returns the new state and the calls it has sent, and
  by what it does once the awaited call has ended.
\<close>

definition loadPipelineData :: "PipelineState \<Rightarrow> PipelineState \<times> Rpc list" where
  "loadPipelineData s = (s\<lparr>pl_loading := True\<rparr>, [Get_pipeline_data])"

definition loadPipelineData_settled :: "PipelineState \<Rightarrow> PipelineData Outcome \<Rightarrow> PipelineState" where
  "loadPipelineData_settled s outcome =
     (case outcome of
        Thrown \<Rightarrow> s\<lparr>pl_error := Some LoadFailed, pl_loading := False\<rparr>
      | Resolved resp \<Rightarrow>
          (case error resp of
             Some e \<Rightarrow> s\<lparr>pl_error := Some LoadFailed, pl_loading := False\<rparr>
           | None \<Rightarrow>
               (case data resp of
                  Some d \<Rightarrow>
                    (case data_columns d of
                       Some cols \<Rightarrow> s\<lparr>columns := cols, pl_loading := False\<rparr>
                     | None \<Rightarrow> s\<lparr>columns := [], pl_loading := False\<rparr>)
                | None \<Rightarrow> s\<lparr>columns := [], pl_loading := False\<rparr>)))"

definition subscribeToUpdates :: "PipelineState \<Rightarrow> 'event \<Rightarrow> PipelineState \<times> Rpc list" where
  \<comment> \<open>the callback registered for every event on the \<open>reservations\<close> table\<close>
  "subscribeToUpdates s ev = loadPipelineData s"

definition handleDragStart :: "PipelineState \<Rightarrow> string \<Rightarrow> PipelineState" where
  "handleDragStart s active = s\<lparr>activeId := Some active\<rparr>"

fun findReservation :: "PipelineColumn list \<Rightarrow> string \<Rightarrow> Card option" where
  "findReservation [] ident = None"
| "findReservation (column # rest) ident =
     (case (case col_reservations column of
              None \<Rightarrow> None
            | Some cards \<Rightarrow> find (\<lambda>r. card_id r = ident) cards) of
        Some reservation \<Rightarrow> Some reservation
      | None \<Rightarrow> findReservation rest ident)"

record DragEndEvent =
  active :: string
  over :: "string option"

definition handleDragEnd :: "PipelineState \<Rightarrow> DragEndEvent \<Rightarrow> PipelineState \<times> Rpc list" where
  "handleDragEnd s event =
     (case over event of
        None \<Rightarrow> (s, [])
      | Some newStatus \<Rightarrow>
          (case findReservation (columns s) (active event) of
             Some activeReservation \<Rightarrow>
               if card_id activeReservation \<noteq> newStatus
               then (s, [Update_reservation_pipeline_status (card_id activeReservation) newStatus])
               else (s\<lparr>activeId := None\<rparr>, [])
           | None \<Rightarrow> (s\<lparr>activeId := None\<rparr>, [])))"

definition handleDragEnd_updated :: "PipelineState \<Rightarrow> unit Outcome \<Rightarrow> PipelineState \<times> Rpc list" where
  \<comment> \<open>after the update call: reload, or report the failure and clear the dragged id\<close>
  "handleDragEnd_updated s outcome =
     (case outcome of
        Thrown \<Rightarrow> (s\<lparr>pl_error := Some UpdateFailed, activeId := None\<rparr>, [])
      | Resolved resp \<Rightarrow> loadPipelineData s)"

definition handleDragEnd_reloaded :: "PipelineState \<Rightarrow> PipelineData Outcome \<Rightarrow> PipelineState" where
  "handleDragEnd_reloaded s outcome = (loadPipelineData_settled s outcome)\<lparr>activeId := None\<rparr>"

definition handleStatusChange :: "PipelineState \<Rightarrow> string \<Rightarrow> string \<Rightarrow> PipelineState \<times> Rpc list" where
  "handleStatusChange s reservationId newStatus =
     (s, [Update_reservation_pipeline_status reservationId newStatus])"

definition handleStatusChange_updated :: "PipelineState \<Rightarrow> unit Outcome \<Rightarrow> PipelineState \<times> Rpc list" where
  "handleStatusChange_updated s outcome =
     (case outcome of
        Thrown \<Rightarrow> (s\<lparr>pl_error := Some UpdateFailed\<rparr>, [])
      | Resolved resp \<Rightarrow> loadPipelineData s)"


text \<open>
  The handlers run one after the other, each up to its first \<open>await\<close>; the calls a
  handler sends stay in flight until they settle. \<open>dispatch\<close> runs the handler of one
  user or subscription event on the view and adds the calls it sends to those in flight.
\<close>

record PipelineWorld =
  view :: PipelineState
  in_flight :: "Rpc list"

datatype PipelineEvent =
  DragStarted string
| Dropped DragEndEvent
| StatusClicked string string
| Notified

definition dispatch :: "PipelineWorld \<Rightarrow> PipelineEvent \<Rightarrow> PipelineWorld" where
  "dispatch w ev =
     (let (s, calls) =
        (case ev of
           DragStarted a \<Rightarrow> (handleDragStart (view w) a, [])
         | Dropped e \<Rightarrow> handleDragEnd (view w) e
         | StatusClicked reservationId newStatus \<Rightarrow>
             handleStatusChange (view w) reservationId newStatus
         | Notified \<Rightarrow> subscribeToUpdates (view w) ())
      in \<lparr>view = s, in_flight = in_flight w @ calls\<rparr>)"

section \<open>The customer details view\<close>

record CustomerDetails =
  details_id :: string
  details_status :: string

record DetailsState =
  route_id :: string
  details :: "CustomerDetails option"
  dv_loading :: bool
  dv_error :: "Notice option"
  submitting :: bool

definition handleStatusChange_details :: "DetailsState \<Rightarrow> string \<Rightarrow> DetailsState \<times> Rpc list" where
  "handleStatusChange_details s newStatus =
     (s\<lparr>submitting := True\<rparr>,
      [Update_reservation_status (route_id s) newStatus (''Status zmieniony na: '' @ newStatus)])"

definition status_button_click :: "DetailsState \<Rightarrow> string \<Rightarrow> DetailsState \<times> Rpc list" where
  \<comment> \<open>a click on the button of a status: the buttons exist once the details are loaded,
      and a button is disabled while submitting and for the status the reservation has\<close>
  "status_button_click s button =
     (if dv_loading s then (s, [])
      else case details s of
             None \<Rightarrow> (s, [])
           | Some d \<Rightarrow>
               if submitting s \<or> details_status d = button then (s, [])
               else handleStatusChange_details s button)"


section \<open>Auxiliary definitions of the proofs\<close>

text \<open>The number of days of month \<open>m\<close> (from 0) of year \<open>y\<close>.\<close>

definition month_length :: "int \<Rightarrow> int \<Rightarrow> int" where
  "month_length y m =
     (if m = 1 then (if DaysInYear y = 365 then 28 else 29)
      else if m = 3 \<or> m = 5 \<or> m = 8 \<or> m = 10 then 30
      else 31)"


text \<open>
  A reservation is placed on an equipment row when every day of the month that its span
  covers resolves to it: no reservation listed before it on that row covers one of its
  days.
\<close>

definition placed :: "CalendarState \<Rightarrow> Equipment \<Rightarrow> Reservation \<Rightarrow> bool" where
  "placed s item r =
     list_all (\<lambda>d. covers (currentDate s) d r \<longrightarrow> cellReservation s item d = Some r)
       [0..<nat (getDaysInMonth (currentDate s))]"

text \<open>
  The conditions on a reservation that the statements about a row's reservations use:
  it is on an equipment line, its interval intersects the window of the shown month, its
  interval lies within that window.
\<close>

definition on_line :: "Equipment \<Rightarrow> Reservation \<Rightarrow> bool" where
  "on_line item r = list_ex (\<lambda>ri. equipment_id ri = eq_id item) (reservation_items r)"


definition within_window :: "Reservation \<Rightarrow> int \<Rightarrow> bool" where
  "within_window r cur = (monthStart cur \<le> start_date r \<and> end_date r \<le> monthEnd cur)"


section \<open>Example data\<close>

definition line_A :: Equipment where
  "line_A = \<lparr>eq_id = ''A'', eq_name = ''Koparka''\<rparr>"

definition booking :: "string \<Rightarrow> string \<Rightarrow> string \<Rightarrow> int \<Rightarrow> int \<Rightarrow> string \<Rightarrow> Reservation" where
  \<comment> \<open>a reservation of equipment \<open>A\<close> between two time values\<close>
  "booking ident fname lname from to st =
     \<lparr>res_id = ident, customer = \<lparr>first_name = fname, last_name = lname\<rparr>,
      start_date = from, end_date = to,
      start_time = ''08:00'', end_time = ''16:00'', status = st,
      reservation_items = [\<lparr>equipment_id = ''A''\<rparr>]\<rparr>"

definition march :: "Reservation list \<Rightarrow> CalendarState" where
  \<comment> \<open>the calendar showing March 2025 with the given reservations loaded\<close>
  "march rs =
     \<lparr>equipment = [line_A], reservations = rs, currentDate = newDate 2025 2 10,
      loading = False\<rparr>"

definition R1 :: Reservation where
  "R1 = booking ''R1'' ''Jan'' ''Kowalski'' (newDate 2025 2 1) (newDate 2025 2 5) ''confirmed''"

definition R2 :: Reservation where
  "R2 = booking ''R2'' ''Anna'' ''Nowak'' (newDate 2025 2 3) (newDate 2025 2 7) ''confirmed''"

definition R_feb_mar :: Reservation where
  \<comment> \<open>27 February to 3 March 2025\<close>
  "R_feb_mar =
     booking ''R3'' ''Ewa'' ''Lis'' (newDate 2025 1 27) (newDate 2025 2 3) ''confirmed''"

definition R_cancelled :: Reservation where
  "R_cancelled = booking ''R4'' ''Piotr'' ''Zima'' (newDate 2025 2 20) (newDate 2025 2 22) ''cancelled''"

definition table_march :: "Reservation list" where
  "table_march = [R1, R_cancelled, R_feb_mar]"

definition K_one_day :: Reservation where
  "K_one_day = booking ''K1'' ''Jan'' ''Kowalski'' (newDate 2025 2 14) (newDate 2025 2 14) ''confirmed''"

definition K_two_days :: Reservation where
  "K_two_days = booking ''K2'' ''Jan'' ''Kowalski'' (newDate 2025 2 14) (newDate 2025 2 15) ''confirmed''"

definition K_two_days_late :: Reservation where
  "K_two_days_late =
     booking ''K3'' ''Jan'' ''Kowalski'' (newDate 2025 2 14) (newDate 2025 2 15 + 8 * 3600000) ''confirmed''"

definition card_r1 :: Card where
  "card_r1 =
     \<lparr>card_id = ''r1'', card_customer = \<lparr>first_name = ''Jan'', last_name = ''Kowalski''\<rparr>,
      card_total_price = 250\<rparr>"

definition board :: PipelineState where
  \<comment> \<open>the pipeline with one card, in the column of the pending reservations\<close>
  "board =
     \<lparr>columns =
        [\<lparr>col_id = ''pending'', col_title = ''Oczekujace'', col_reservations = Some [card_r1]\<rparr>,
         \<lparr>col_id = ''confirmed'', col_title = ''Potwierdzone'', col_reservations = None\<rparr>],
      pl_loading = False, pl_error = None, activeId = Some ''r1''\<rparr>"

section \<open>The calendar of the Date built-in\<close>


lemma div_succ:
  fixes z k :: int
  assumes k: "0 < k"
  shows "(z + 1) div k = z div k + (if (z + 1) mod k = 0 then 1 else 0)"
proof -
  define q r where "q = z div k" and "r = z mod k"
  have z: "z = k * q + r" and r: "0 \<le> r" "r < k"
    using k by (simp_all add: q_def r_def)
  show ?thesis
  proof (cases "r = k - 1")
    case True
    with z have eq: "z + 1 = k * (q + 1) + 0"
      by (simp add: algebra_simps)
    have "(z + 1) div k = q + 1" and "(z + 1) mod k = 0"
      using int_div_pos_eq [OF eq] int_mod_pos_eq [OF eq] k by simp_all
    then show ?thesis by (simp add: q_def)
  next
    case False
    with r have r1: "0 \<le> r + 1" "r + 1 < k" by simp_all
    from z have eq: "z + 1 = k * q + (r + 1)" by simp
    have "(z + 1) div k = q" and "(z + 1) mod k = r + 1"
      using int_div_pos_eq [OF eq r1] int_mod_pos_eq [OF eq r1] by simp_all
    with r show ?thesis by (simp add: q_def)
  qed
qed

lemma mod_shift:
  fixes y k c :: int
  shows "(y - k * c) mod k = y mod k"
  by (metis mod_diff_right_eq mod_mult_self1_is_0 diff_zero)

lemma mod_0_trans:
  fixes y a b :: int
  assumes "y mod a = 0" and "b dvd a"
  shows "y mod b = 0"
proof -
  from assms(1) have "a dvd y" by (simp add: dvd_eq_mod_eq_0)
  with assms(2) have "b dvd y" by (rule dvd_trans)
  then show ?thesis by (simp add: dvd_eq_mod_eq_0)
qed

lemma DayFromYear_step: "DayFromYear (y + 1) = DayFromYear y + DaysInYear y"
proof -
  have d4: "(y - 1968) div 4 = (y - 1969) div 4 + (if y mod 4 = 0 then 1 else 0)"
    using div_succ [of 4 "y - 1969"] mod_shift [of y 4 492] by simp
  have d100: "(y - 1900) div 100 = (y - 1901) div 100 + (if y mod 100 = 0 then 1 else 0)"
    using div_succ [of 100 "y - 1901"] mod_shift [of y 100 19] by simp
  have d400: "(y - 1600) div 400 = (y - 1601) div 400 + (if y mod 400 = 0 then 1 else 0)"
    using div_succ [of 400 "y - 1601"] mod_shift [of y 400 4] by simp
  have m1: "y mod 400 = 0 \<Longrightarrow> y mod 100 = 0"
    by (rule mod_0_trans [of y 400 100]) simp_all
  have m2: "y mod 100 = 0 \<Longrightarrow> y mod 4 = 0"
    by (rule mod_0_trans [of y 100 4]) simp_all
  show ?thesis
    using m1 m2 by (simp add: DayFromYear_def DaysInYear_def d4 d100 d400)
qed

lemma DaysInYear_bounds: "365 \<le> DaysInYear y" "DaysInYear y \<le> 366"
  by (simp_all add: DaysInYear_def)

lemma DayFromYear_less_succ: "DayFromYear y < DayFromYear (y + 1)"
  using DaysInYear_bounds(1) [of y] by (simp add: DayFromYear_step)

lemma DayFromYear_mono_nat: "DayFromYear y \<le> DayFromYear (y + int k)"
proof (induction k)
  case 0
  show ?case by simp
next
  case (Suc k)
  have e: "y + int (Suc k) = y + int k + 1"
    by simp
  have "DayFromYear (y + int k) < DayFromYear (y + int k + 1)"
    by (rule DayFromYear_less_succ)
  with Suc show ?case unfolding e by linarith
qed

lemma DayFromYear_mono: 
  assumes "y \<le> y'" shows "DayFromYear y \<le> DayFromYear y'"
  using DayFromYear_mono_nat [of y "nat (y' - y)"] assms by simp

lemma DayFromYear_strict:
  assumes "y < y'" shows "DayFromYear y < DayFromYear y'"
proof -
  have "DayFromYear y < DayFromYear (y + 1)" by (rule DayFromYear_less_succ)
  also have "\<dots> \<le> DayFromYear y'" using assms by (intro DayFromYear_mono) simp
  finally show ?thesis .
qed

lemma year_up_above: "d < DayFromYear (year_up d y + 1)"
proof (induction d y rule: year_up.induct)
  case (1 d y)
  show ?case
  proof (cases "DayFromYear (y + 1) \<le> d")
    case True
    with 1 show ?thesis by (subst year_up.simps) simp
  next
    case False
    then show ?thesis by (subst year_up.simps) simp
  qed
qed

lemma year_down_below: "DayFromYear (year_down d y) \<le> d"
proof (induction d y rule: year_down.induct)
  case (1 d y)
  show ?case
  proof (cases "d < DayFromYear y")
    case True
    with 1 show ?thesis by (subst year_down.simps) simp
  next
    case False
    then show ?thesis by (subst year_down.simps) simp
  qed
qed

lemma year_down_above: "d < DayFromYear (y + 1) \<Longrightarrow> d < DayFromYear (year_down d y + 1)"
proof (induction d y rule: year_down.induct)
  case (1 d y)
  show ?case
  proof (cases "d < DayFromYear y")
    case True
    with 1 show ?thesis by (subst year_down.simps) simp
  next
    case False
    with 1 show ?thesis by (subst year_down.simps) simp
  qed
qed

lemma YearFromDay_spec:
  "DayFromYear (YearFromDay d) \<le> d" "d < DayFromYear (YearFromDay d + 1)"
  unfolding YearFromDay_def
  by (rule year_down_below, rule year_down_above, rule year_up_above)

lemma YearFromDay_unique:
  assumes "DayFromYear y \<le> d" and "d < DayFromYear (y + 1)"
  shows "YearFromDay d = y"
proof (rule ccontr)
  assume ne: "YearFromDay d \<noteq> y"
  then consider "YearFromDay d < y" | "y < YearFromDay d" by linarith
  then show False
  proof cases
    case 1
    then have "DayFromYear (YearFromDay d + 1) \<le> DayFromYear y"
      by (intro DayFromYear_mono) simp
    with YearFromDay_spec(2) [of d] assms(1) show False by simp
  next
    case 2
    then have "DayFromYear (y + 1) \<le> DayFromYear (YearFromDay d)"
      by (intro DayFromYear_mono) simp
    with YearFromDay_spec(1) [of d] assms(2) show False by simp
  qed
qed


lemma Day_of_midnight: "Day (k * msPerDay) = k"
  by (simp add: Day_def msPerDay_def)

lemma Day_mono: "t \<le> t' \<Longrightarrow> Day t \<le> Day t'"
  unfolding Day_def msPerDay_def by (rule zdiv_mono1) simp_all

lemma month_cases:
  fixes m :: int
  assumes "0 \<le> m" "m \<le> 11"
  shows "m = 0 \<or> m = 1 \<or> m = 2 \<or> m = 3 \<or> m = 4 \<or> m = 5 \<or> m = 6 \<or> m = 7 \<or> m = 8
         \<or> m = 9 \<or> m = 10 \<or> m = 11"
  using assms by presburger

lemma DaysInYear_cases: "DaysInYear y = 365 \<or> DaysInYear y = 366"
  by (simp add: DaysInYear_def)

lemma firstDayOfMonth_in_year:
  assumes "0 \<le> m" "m \<le> 11" "0 \<le> k" "k < month_length y m"
  shows "DayFromYear y \<le> firstDayOfMonth y m + k"
    and "firstDayOfMonth y m + k < DayFromYear (y + 1)"
proof -
  from DaysInYear_cases [of y] month_cases [OF assms(1,2)] assms(3,4)
  show "DayFromYear y \<le> firstDayOfMonth y m + k"
    by (elim disjE) (simp_all add: firstDayOfMonth_def month_length_def)
  from DaysInYear_cases [of y] month_cases [OF assms(1,2)] assms(3,4)
  show "firstDayOfMonth y m + k < DayFromYear (y + 1)"
    by (elim disjE) (simp_all add: firstDayOfMonth_def month_length_def DayFromYear_step)
qed


lemma date_in_month:
  assumes m: "0 \<le> m" "m \<le> 11" and k: "0 \<le> k" "k < month_length y m"
    and t: "Day t = firstDayOfMonth y m + k"
  shows "YearFromTime t = y" and "MonthFromTime t = m" and "DateFromTime t = k + 1"
proof -
  show y: "YearFromTime t = y"
    unfolding YearFromTime_def t
    by (rule YearFromDay_unique) (rule firstDayOfMonth_in_year [OF m k])+
  have dwy: "DayWithinYear t = firstDayOfMonth y m - DayFromYear y + k"
    by (simp add: DayWithinYear_def y t)
  have leap: "InLeapYear t = (if DaysInYear y = 365 then 0 else 1)"
    by (simp add: InLeapYear_def y)
  from DaysInYear_cases [of y] month_cases [OF m] k
  show mo: "MonthFromTime t = m"
    by (elim disjE)
      (simp_all add: MonthFromTime_def dwy leap firstDayOfMonth_def month_length_def)
  from DaysInYear_cases [of y] month_cases [OF m] k
  show "DateFromTime t = k + 1"
    by (elim disjE)
      (simp_all add: DateFromTime_def mo dwy leap firstDayOfMonth_def month_length_def)
qed

lemma next_month_first_day:
  assumes "0 \<le> m" "m \<le> 11"
  shows "firstDayOfMonth (y + (m + 1) div 12) ((m + 1) mod 12)
         = firstDayOfMonth y m + month_length y m"
  using DaysInYear_cases [of y] month_cases [OF assms]
  by (elim disjE) (simp_all add: firstDayOfMonth_def month_length_def DayFromYear_step)


text \<open>
  The model of the built-in reads back what it is given: a date built from a year, a
  month and a day of that month has these three as its fields.
\<close>

lemma newDate_fields:
  assumes "0 \<le> m" "m \<le> 11" and "1 \<le> d" "d \<le> month_length y m"
  shows "getFullYear (newDate y m d) = y" and "getMonth (newDate y m d) = m"
    and "getDate (newDate y m d) = d"
proof -
  have k: "0 \<le> d - 1" "d - 1 < month_length y m"
    using assms(3,4) by simp_all
  have "m div 12 = 0" and "m mod 12 = m"
    using assms(1,2) by simp_all
  then have t: "Day (newDate y m d) = firstDayOfMonth y m + (d - 1)"
    by (simp add: newDate_def MakeDay_def Day_of_midnight)
  show "getFullYear (newDate y m d) = y"
    unfolding getFullYear_def by (rule date_in_month(1) [OF assms(1,2) k t])
  show "getMonth (newDate y m d) = m"
    unfolding getMonth_def by (rule date_in_month(2) [OF assms(1,2) k t])
  show "getDate (newDate y m d) = d"
    unfolding getDate_def using date_in_month(3) [OF assms(1,2) k t] by simp
qed

lemma getMonth_range: "0 \<le> getMonth t" "getMonth t \<le> 11"
  by (simp_all add: getMonth_def MonthFromTime_def Let_def)

lemma month_length_bounds: "28 \<le> month_length y m" "month_length y m \<le> 31"
  by (simp_all add: month_length_def)

lemma monthStart_Day: "monthStart cur = firstDayOfMonth (getFullYear cur) (getMonth cur) * msPerDay"
  using getMonth_range [of cur]
  by (simp add: monthStart_def newDate_def MakeDay_def div_pos_pos_trivial mod_pos_pos_trivial)

lemma monthEnd_Day:
  "monthEnd cur =
     (firstDayOfMonth (getFullYear cur) (getMonth cur)
      + month_length (getFullYear cur) (getMonth cur) - 1) * msPerDay"
  using getMonth_range [of cur]
  by (simp add: monthEnd_def newDate_def MakeDay_def next_month_first_day)

lemma getDate_in_window:
  assumes "monthStart cur \<le> t" and "t \<le> monthEnd cur"
  shows "getDate t = Day t - Day (monthStart cur) + 1"
    and "Day (monthStart cur) \<le> Day t" and "Day t \<le> Day (monthEnd cur)"
proof -
  let ?y = "getFullYear cur" and ?m = "getMonth cur"
  let ?k = "Day t - firstDayOfMonth ?y ?m"
  have d0: "Day (monthStart cur) = firstDayOfMonth ?y ?m"
    by (simp add: monthStart_Day Day_of_midnight)
  have d1: "Day (monthEnd cur) = firstDayOfMonth ?y ?m + month_length ?y ?m - 1"
    by (simp add: monthEnd_Day Day_of_midnight)
  show lo: "Day (monthStart cur) \<le> Day t" using assms(1) by (rule Day_mono)
  show hi: "Day t \<le> Day (monthEnd cur)" using assms(2) by (rule Day_mono)
  have k: "0 \<le> ?k" "?k < month_length ?y ?m"
    using lo hi by (simp_all add: d0 d1)
  have "DateFromTime t = ?k + 1"
    by (rule date_in_month(3) [OF getMonth_range k]) simp
  then show "getDate t = Day t - Day (monthStart cur) + 1"
    by (simp add: getDate_def d0)
qed

lemma monthStart_le_monthEnd: "monthStart cur \<le> monthEnd cur"
  using month_length_bounds(1) [of "getFullYear cur" "getMonth cur"]
  by (simp add: monthStart_Day monthEnd_Day msPerDay_def)

lemma getDate_monthStart: "getDate (monthStart cur) = 1"
  using getDate_in_window(1) [of cur "monthStart cur"] monthStart_le_monthEnd by simp

lemma getDate_monthEnd: "getDate (monthEnd cur) = month_length (getFullYear cur) (getMonth cur)"
  using getDate_in_window(1) [of cur "monthEnd cur"] monthStart_le_monthEnd [of cur]
  by (simp add: monthStart_Day monthEnd_Day Day_of_midnight)

lemma getDaysInMonth_eq: "getDaysInMonth cur = month_length (getFullYear cur) (getMonth cur)"
  using getDate_monthEnd [of cur] by (simp add: getDaysInMonth_def monthEnd_def)



section \<open>Spans\<close>


lemma clipped_in_window:
  assumes "start_date r \<le> monthEnd cur" and "monthStart cur \<le> end_date r"
  shows "monthStart cur \<le> max (start_date r) (monthStart cur)"
    and "max (start_date r) (monthStart cur) \<le> monthEnd cur"
    and "monthStart cur \<le> min (end_date r) (monthEnd cur)"
    and "min (end_date r) (monthEnd cur) \<le> monthEnd cur"
  using assms monthStart_le_monthEnd [of cur] by simp_all

lemma startDay_clipped:
  "startDay (getReservationSpan r (monthStart cur) (monthEnd cur))
     = getDate (max (start_date r) (monthStart cur))"
  by (simp add: getReservationSpan_def Let_def getDate_monthStart max_def)

lemma endDay_clipped:
  "endDay (getReservationSpan r (monthStart cur) (monthEnd cur))
     = getDate (min (end_date r) (monthEnd cur))"
  by (simp add: getReservationSpan_def Let_def min_def)

lemma span_eq:
  "span (getReservationSpan r ms me)
     = endDay (getReservationSpan r ms me) - startDay (getReservationSpan r ms me) + 1"
  by (simp add: getReservationSpan_def Let_def)

lemma span_days:
  assumes "start_date r \<le> monthEnd cur" and "monthStart cur \<le> end_date r"
  shows "startDay (getReservationSpan r (monthStart cur) (monthEnd cur))
           = Day (max (start_date r) (monthStart cur)) - Day (monthStart cur) + 1"
    and "endDay (getReservationSpan r (monthStart cur) (monthEnd cur))
           = Day (min (end_date r) (monthEnd cur)) - Day (monthStart cur) + 1"
    and "span (getReservationSpan r (monthStart cur) (monthEnd cur))
           = Day (min (end_date r) (monthEnd cur)) - Day (max (start_date r) (monthStart cur)) + 1"
proof -
  note w = clipped_in_window [OF assms]
  show s: "startDay (getReservationSpan r (monthStart cur) (monthEnd cur))
           = Day (max (start_date r) (monthStart cur)) - Day (monthStart cur) + 1"
    unfolding startDay_clipped by (rule getDate_in_window(1) [OF w(1,2)])
  show e: "endDay (getReservationSpan r (monthStart cur) (monthEnd cur))
           = Day (min (end_date r) (monthEnd cur)) - Day (monthStart cur) + 1"
    unfolding endDay_clipped by (rule getDate_in_window(1) [OF w(3,4)])
  show "span (getReservationSpan r (monthStart cur) (monthEnd cur))
           = Day (min (end_date r) (monthEnd cur)) - Day (max (start_date r) (monthStart cur)) + 1"
    unfolding span_eq s e by simp
qed

text \<open>
  C6. For a reservation (with \<open>start \<le> end\<close>) that intersects the window of the shown
  month, \<open>getReservationSpan\<close> returns the days of the month of
  \<open>clippedStart = max start windowStart\<close> and \<open>clippedEnd = min end windowEnd\<close>; its span
  is the number of calendar days from the day of \<open>clippedStart\<close> to the day of
  \<open>clippedEnd\<close>, both included, and the day cells the reservation covers are exactly the
  days of that closed interval.
\<close>

theorem visible_span_is_clipped_interval:
  assumes "start_date r \<le> end_date r"
    and "start_date r \<le> monthEnd cur" and "monthStart cur \<le> end_date r"
  shows
    "let clippedStart = max (start_date r) (monthStart cur);
         clippedEnd = min (end_date r) (monthEnd cur);
         sp = getReservationSpan r (monthStart cur) (monthEnd cur)
     in clippedStart \<le> clippedEnd
        \<and> startDay sp = getDate clippedStart
        \<and> endDay sp = getDate clippedEnd
        \<and> span sp = Day clippedEnd - Day clippedStart + 1
        \<and> 1 \<le> span sp
        \<and> (\<forall>dayIndex. covers cur dayIndex r
              = (Day clippedStart \<le> Day (monthStart cur) + int dayIndex
                 \<and> Day (monthStart cur) + int dayIndex \<le> Day clippedEnd))"
proof -
  let ?cs = "max (start_date r) (monthStart cur)" and ?ce = "min (end_date r) (monthEnd cur)"
  let ?sp = "getReservationSpan r (monthStart cur) (monthEnd cur)"
  note d = span_days [OF assms(2,3)]
  have le: "?cs \<le> ?ce"
    using assms monthStart_le_monthEnd [of cur] by simp
  then have dle: "Day ?cs \<le> Day ?ce"
    by (rule Day_mono)
  have c: "covers cur dayIndex r
            = (Day ?cs \<le> Day (monthStart cur) + int dayIndex
               \<and> Day (monthStart cur) + int dayIndex \<le> Day ?ce)" for dayIndex
    unfolding covers_def Let_def d by linarith
  show ?thesis
    unfolding Let_def
    using le startDay_clipped [of r cur] endDay_clipped [of r cur] d(3) dle c by simp
qed

theorem visible_span_is_clipped_interval_witness:
  "start_date R_feb_mar \<le> end_date R_feb_mar
   \<and> start_date R_feb_mar \<le> monthEnd (newDate 2025 2 10)
   \<and> monthStart (newDate 2025 2 10) \<le> end_date R_feb_mar
   \<and> (let clippedStart = max (start_date R_feb_mar) (monthStart (newDate 2025 2 10));
           clippedEnd = min (end_date R_feb_mar) (monthEnd (newDate 2025 2 10));
           sp = getReservationSpan R_feb_mar (monthStart (newDate 2025 2 10))
                  (monthEnd (newDate 2025 2 10))
       in clippedStart \<le> clippedEnd
          \<and> startDay sp = getDate clippedStart
          \<and> endDay sp = getDate clippedEnd
          \<and> span sp = Day clippedEnd - Day clippedStart + 1
          \<and> 1 \<le> span sp
          \<and> (\<forall>dayIndex. covers (newDate 2025 2 10) dayIndex R_feb_mar
                = (Day clippedStart \<le> Day (monthStart (newDate 2025 2 10)) + int dayIndex
                   \<and> Day (monthStart (newDate 2025 2 10)) + int dayIndex \<le> Day clippedEnd)))
   \<and> span (getReservationSpan R_feb_mar (monthStart (newDate 2025 2 10))
             (monthEnd (newDate 2025 2 10))) = 3"
proof -
  have h1: "start_date R_feb_mar \<le> end_date R_feb_mar"
    by code_simp
  have h2: "start_date R_feb_mar \<le> monthEnd (newDate 2025 2 10)"
    by code_simp
  have h3: "monthStart (newDate 2025 2 10) \<le> end_date R_feb_mar"
    by code_simp
  have v: "span (getReservationSpan R_feb_mar (monthStart (newDate 2025 2 10))
             (monthEnd (newDate 2025 2 10))) = 3"
    by code_simp
  note c = visible_span_is_clipped_interval [OF h1 h2 h3]
  show ?thesis
    by (intro conjI h1 h2 h3 c v)
qed


section \<open>The rendered row\<close>


lemma renderRow_length: "length (renderRow s item) = nat (getDaysInMonth (currentDate s))"
  by (simp add: renderRow_def)

lemma renderRow_nth:
  "i < nat (getDaysInMonth (currentDate s)) \<Longrightarrow> renderRow s item ! i = renderCell s item i"
  by (simp add: renderRow_def)

lemma renderCell_occupied:
  assumes "cellReservation s item d = Some r"
  shows "renderCell s item d =
     (let sp = getReservationSpan r (monthStart (currentDate s)) (monthEnd (currentDate s))
      in if int d + 1 = startDay sp
         then SpanCell r (span sp) (span sp > 1)
                (getReservationContent r (1240 div getDaysInMonth (currentDate s)) (span sp > 1))
         else NullCell)"
  using assms by (simp add: renderCell_def Let_def)

lemma renderCell_SpanCell_iff:
  "renderCell s item d = SpanCell r n b l \<Longrightarrow>
     cellReservation s item d = Some r
     \<and> int d + 1 = startDay (getReservationSpan r (monthStart (currentDate s)) (monthEnd (currentDate s)))"
  by (auto simp: renderCell_def Let_def split: option.splits if_splits)

lemma placed_nth:
  assumes "placed s item r" and "d < nat (getDaysInMonth (currentDate s))"
    and "covers (currentDate s) d r"
  shows "cellReservation s item d = Some r"
  using assms by (simp add: placed_def list_all_iff)

lemma placed_head:
  assumes "itemReservations item (reservations s) = r # rest"
  shows "placed s item r"
  using assms by (simp add: placed_def list_all_iff cellReservation_def)

text \<open>
  C7. A reservation that intersects the window and is placed on an equipment row (every
  day of its span resolves to it) is rendered once: the row holds its merged cell at the
  day offset of \<open>clippedStart\<close>, carrying the length
  \<open>clippedEnd - clippedStart + 1\<close> in days; each of the other \<open>length - 1\<close> offsets it
  covers resolves to the same reservation and renders nothing; and no other offset of the
  row holds a merged cell of that reservation.
\<close>

theorem placed_span_rendered_once:
  assumes "start_date r \<le> end_date r"
    and "start_date r \<le> monthEnd (currentDate s)"
    and "monthStart (currentDate s) \<le> end_date r"
    and "placed s item r"
  shows
    "let clippedStart = max (start_date r) (monthStart (currentDate s));
         clippedEnd = min (end_date r) (monthEnd (currentDate s));
         offset = nat (Day clippedStart - Day (monthStart (currentDate s)));
         len = Day clippedEnd - Day clippedStart + 1;
         row = renderRow s item
     in 1 \<le> len
        \<and> offset + nat len \<le> length row
        \<and> row ! offset =
            SpanCell r len (len > 1)
              (getReservationContent r (1240 div getDaysInMonth (currentDate s)) (len > 1))
        \<and> (\<forall>k. 0 < k \<and> k < nat len \<longrightarrow>
               row ! (offset + k) = NullCell \<and> cellReservation s item (offset + k) = Some r)
        \<and> (\<forall>i n b l. i < length row \<and> row ! i = SpanCell r n b l \<longrightarrow> i = offset)"
proof -
  let ?cur = "currentDate s"
  let ?cs = "max (start_date r) (monthStart ?cur)" and ?ce = "min (end_date r) (monthEnd ?cur)"
  let ?sp = "getReservationSpan r (monthStart ?cur) (monthEnd ?cur)"
  let ?off = "nat (Day ?cs - Day (monthStart ?cur))"
  let ?len = "Day ?ce - Day ?cs + 1"
  let ?row = "renderRow s item"
  let ?n = "nat (getDaysInMonth ?cur)"
  note d = span_days [OF assms(2,3)]
  note w = clipped_in_window [OF assms(2,3)]
  have lo: "Day (monthStart ?cur) \<le> Day ?cs"
    by (rule getDate_in_window(2) [OF w(1,2)])
  have hi: "Day ?ce \<le> Day (monthEnd ?cur)"
    by (rule getDate_in_window(3) [OF w(3,4)])
  have "?cs \<le> ?ce"
    using assms(1-3) monthStart_le_monthEnd [of ?cur] by simp
  then have dle: "Day ?cs \<le> Day ?ce"
    by (rule Day_mono)
  have me: "Day (monthEnd ?cur) = Day (monthStart ?cur) + getDaysInMonth ?cur - 1"
    by (simp add: monthStart_Day monthEnd_Day Day_of_midnight getDaysInMonth_eq)
  have off: "int ?off = Day ?cs - Day (monthStart ?cur)"
    using lo by simp
  have len1: "1 \<le> ?len"
    using dle by simp
  have fit: "?off + nat ?len \<le> ?n"
    using lo hi dle me by linarith
  have occ: "cellReservation s item (?off + k) = Some r" if "k < nat ?len" for k
  proof (rule placed_nth [OF assms(4)])
    show "?off + k < ?n" using fit that by linarith
    show "covers ?cur (?off + k) r"
      unfolding covers_def Let_def d using that lo dle by linarith
  qed
  have first: "?row ! ?off = SpanCell r ?len (?len > 1)
       (getReservationContent r (1240 div getDaysInMonth ?cur) (?len > 1))"
  proof -
    have "?off < ?n" using fit len1 by linarith
    then have "?row ! ?off = renderCell s item ?off"
      by (rule renderRow_nth)
    also have "\<dots> = SpanCell r ?len (?len > 1)
         (getReservationContent r (1240 div getDaysInMonth ?cur) (?len > 1))"
      using occ [of 0] len1 off by (simp add: renderCell_occupied Let_def d)
    finally show ?thesis .
  qed
  have rest: "?row ! (?off + k) = NullCell \<and> cellReservation s item (?off + k) = Some r"
    if "0 < k \<and> k < nat ?len" for k
  proof -
    from that have k: "0 < k" "k < nat ?len" by simp_all
    have "?off + k < ?n" using fit k by linarith
    then have "?row ! (?off + k) = renderCell s item (?off + k)"
      by (rule renderRow_nth)
    also have "\<dots> = NullCell"
      using occ [OF k(2)] k(1) off by (simp add: renderCell_occupied Let_def d)
    finally show ?thesis using occ [OF k(2)] by simp
  qed
  have once: "i = ?off" if "i < length ?row \<and> ?row ! i = SpanCell r n b l" for i n b l
  proof -
    from that have i: "i < ?n" and c: "?row ! i = SpanCell r n b l"
      by (simp_all add: renderRow_length)
    from c have "renderCell s item i = SpanCell r n b l"
      by (simp only: renderRow_nth [OF i])
    from renderCell_SpanCell_iff [OF this] have "int i + 1 = startDay ?sp"
      by simp
    then show ?thesis using off d(1) by linarith
  qed
  have fit': "?off + nat ?len \<le> length ?row"
    using fit by (simp only: renderRow_length)
  have rest': "\<forall>k. 0 < k \<and> k < nat ?len \<longrightarrow>
      ?row ! (?off + k) = NullCell \<and> cellReservation s item (?off + k) = Some r"
    using rest by (intro allI impI)
  have once': "\<forall>i n b l. i < length ?row \<and> ?row ! i = SpanCell r n b l \<longrightarrow> i = ?off"
    using once by (intro allI impI)
  show ?thesis
    unfolding Let_def by (intro conjI len1 fit' first rest' once')
qed

theorem placed_span_rendered_once_witness:
  "start_date R1 \<le> end_date R1
   \<and> start_date R1 \<le> monthEnd (currentDate (march [R1, R2]))
   \<and> monthStart (currentDate (march [R1, R2])) \<le> end_date R1
   \<and> placed (march [R1, R2]) line_A R1
   \<and> (let clippedStart = max (start_date R1) (monthStart (currentDate (march [R1, R2])));
           clippedEnd = min (end_date R1) (monthEnd (currentDate (march [R1, R2])));
           offset = nat (Day clippedStart - Day (monthStart (currentDate (march [R1, R2]))));
           len = Day clippedEnd - Day clippedStart + 1;
           row = renderRow (march [R1, R2]) line_A
       in 1 \<le> len
          \<and> offset + nat len \<le> length row
          \<and> row ! offset =
              SpanCell R1 len (len > 1)
                (getReservationContent R1
                   (1240 div getDaysInMonth (currentDate (march [R1, R2]))) (len > 1))
          \<and> (\<forall>k. 0 < k \<and> k < nat len \<longrightarrow>
                 row ! (offset + k) = NullCell
                 \<and> cellReservation (march [R1, R2]) line_A (offset + k) = Some R1)
          \<and> (\<forall>i n b l. i < length row \<and> row ! i = SpanCell R1 n b l \<longrightarrow> i = offset))
   \<and> renderCell (march [R1, R2]) line_A 0
       = SpanCell R1 5 True (''Kowalski Jan'' @ [CHR 0x0A] @ ''1.3 08:00 - 5.3 16:00'')
   \<and> renderCell (march [R1, R2]) line_A 4 = NullCell"
proof -
  have h1: "start_date R1 \<le> end_date R1"
    by code_simp
  have h2: "start_date R1 \<le> monthEnd (currentDate (march [R1, R2]))"
    by code_simp
  have h3: "monthStart (currentDate (march [R1, R2])) \<le> end_date R1"
    by code_simp
  have "itemReservations line_A (reservations (march [R1, R2])) = [R1, R2]"
    by code_simp
  then have h4: "placed (march [R1, R2]) line_A R1"
    by (rule placed_head)
  have v1: "renderCell (march [R1, R2]) line_A 0
       = SpanCell R1 5 True (''Kowalski Jan'' @ [CHR 0x0A] @ ''1.3 08:00 - 5.3 16:00'')"
    by code_simp
  have v2: "renderCell (march [R1, R2]) line_A 4 = NullCell"
    by code_simp
  note c = placed_span_rendered_once [OF h1 h2 h3 h4]
  show ?thesis
    by (intro conjI h1 h2 h3 h4 c v1 v2)
qed


section \<open>The reservations a row considers\<close>

lemma startOfMonth_eq: "startOfMonth cur = monthStart cur"
  by (simp add: startOfMonth_def monthStart_def)

lemma endOfMonth_eq: "endOfMonth cur = monthEnd cur"
  by (simp add: endOfMonth_def monthEnd_def)

lemma loaded_reservations:
  "reservations (loadReservations_from tbl s) = reservations_query tbl (currentDate s)"
  by (simp add: loadReservations_from_def loadReservations_def)


lemma considered_set:
  "set (itemReservations item (reservations (loadReservations_from tbl s)))
     = {r \<in> set tbl. on_line item r \<and> status r \<noteq> ''cancelled''
                    \<and> within_window r (currentDate s)}"
  by (auto simp: itemReservations_def loaded_reservations reservations_query_def on_line_def
      within_window_def startOfMonth_eq endOfMonth_eq list_ex_iff)





text \<open>
  C10. After a load, no cell of the grid refers to a cancelled reservation: the
  reservation a day cell resolves to, and the reservation of a merged cell, is a row of
  the table whose status is not \<open>cancelled\<close>.
\<close>

theorem cancelled_never_in_grid:
  assumes "cellReservation (loadReservations_from tbl s) item d = Some r
           \<or> (\<exists>n b l. renderCell (loadReservations_from tbl s) item d = SpanCell r n b l)"
  shows "status r \<noteq> ''cancelled'' \<and> r \<in> set tbl"
proof -
  from assms have "cellReservation (loadReservations_from tbl s) item d = Some r"
    using renderCell_SpanCell_iff by blast
  then have "r \<in> set (itemReservations item (reservations (loadReservations_from tbl s)))"
    unfolding cellReservation_def by (auto simp: find_Some_iff)
  then show ?thesis
    unfolding considered_set by simp
qed

theorem cancelled_never_in_grid_witness:
  "cellReservation (loadReservations_from table_march (march [])) line_A 0 = Some R1
   \<and> status R1 \<noteq> ''cancelled'' \<and> R1 \<in> set table_march"
proof -
  have h: "cellReservation (loadReservations_from table_march (march [])) line_A 0 = Some R1"
    by code_simp
  note c = cancelled_never_in_grid [OF disjI1, OF h]
  show ?thesis
    using h c by (intro conjI) simp_all
qed

section \<open>Reservations that overlap on a row\<close>

text \<open>
  C2, as stated, fails. With \<open>R1\<close> on days 1 to 5 and \<open>R2\<close> on days 3 to 7 of the same
  row, and \<open>R2\<close> listed first, the conflicting day 3 resolves to \<open>R2\<close>, which starts
  later, and \<open>R2\<close> is rendered there. With \<open>R1\<close> listed first, day 3 (the only day where
  \<open>R2\<close> could be rendered) renders nothing, and day 6 resolves to \<open>R2\<close> and renders
  nothing: \<open>R2\<close> is dropped, and the row is all the component returns.
\<close>

theorem earliest_start_not_preferred_counterexample:
  "covers (currentDate (march [R2, R1])) 2 R1
   \<and> covers (currentDate (march [R2, R1])) 2 R2
   \<and> start_date R1 < start_date R2
   \<and> cellReservation (march [R2, R1]) line_A 2 = Some R2
   \<and> renderCell (march [R2, R1]) line_A 2
       = SpanCell R2 5 True (''Nowak Anna'' @ [CHR 0x0A] @ ''3.3 08:00 - 7.3 16:00'')
   \<and> renderCell (march [R1, R2]) line_A 2 = NullCell
   \<and> cellReservation (march [R1, R2]) line_A 5 = Some R2
   \<and> renderCell (march [R1, R2]) line_A 5 = NullCell"
proof -
  have a: "covers (currentDate (march [R2, R1])) 2 R1" by code_simp
  have b: "covers (currentDate (march [R2, R1])) 2 R2" by code_simp
  have c: "start_date R1 < start_date R2" by code_simp
  have d: "cellReservation (march [R2, R1]) line_A 2 = Some R2" by code_simp
  have e: "renderCell (march [R2, R1]) line_A 2
       = SpanCell R2 5 True (''Nowak Anna'' @ [CHR 0x0A] @ ''3.3 08:00 - 7.3 16:00'')"
    by code_simp
  have f: "renderCell (march [R1, R2]) line_A 2 = NullCell" by code_simp
  have g: "cellReservation (march [R1, R2]) line_A 5 = Some R2" by code_simp
  have h: "renderCell (march [R1, R2]) line_A 5 = NullCell" by code_simp
  show ?thesis
    by (intro conjI a b c d e f g h)
qed

text \<open>
  C2, amended. A day cell of a row resolves to a reservation exactly when that
  reservation is the first one, in the order of the loaded list, among the reservations
  of the row whose span covers the day. Start dates are not compared.
\<close>

theorem cell_occupant_is_first_listed:
  "(cellReservation s item d = Some r)
     = (\<exists>i < length (itemReservations item (reservations s)).
          itemReservations item (reservations s) ! i = r
          \<and> covers (currentDate s) d r
          \<and> (\<forall>j < i. \<not> covers (currentDate s) d (itemReservations item (reservations s) ! j)))"
  unfolding cellReservation_def find_Some_iff by blast

theorem cell_occupant_is_first_listed_witness:
  "cellReservation (march [R1, R2]) line_A 2 = Some R1
   \<and> (\<exists>i < length (itemReservations line_A (reservations (march [R1, R2]))).
          itemReservations line_A (reservations (march [R1, R2])) ! i = R1
          \<and> covers (currentDate (march [R1, R2])) 2 R1
          \<and> (\<forall>j < i. \<not> covers (currentDate (march [R1, R2])) 2
                          (itemReservations line_A (reservations (march [R1, R2])) ! j)))"
proof -
  have h: "cellReservation (march [R1, R2]) line_A 2 = Some R1"
    by code_simp
  note c = iffD1 [OF cell_occupant_is_first_listed h]
  show ?thesis
    by (intro conjI h c)
qed

section \<open>Labels\<close>

text \<open>
  The number of days of a label is the elapsed time rounded up to whole days, so its
  thresholds are thresholds on the elapsed milliseconds.
\<close>

lemma days_between_ge4: "(days_between a b \<ge> 4) = (b - a > 3 * msPerDay)"
  unfolding days_between_def msPerDay_def by linarith

lemma days_between_ge2: "(days_between a b \<ge> 2) = (b - a > msPerDay)"
  unfolding days_between_def msPerDay_def by linarith

lemma days_between_le3: "(days_between a b \<le> 3) = (b - a \<le> 3 * msPerDay)"
  unfolding days_between_def msPerDay_def by linarith

text \<open>
  C3, as stated, fails: the label is not a function of the span length. Two
  reservations of Kowalski both span the 14th and the 15th (an inclusive span of 2 days,
  drawn as a merged cell of 2 columns). The one that ends 24 hours after it starts gets
  the one-day label; the one that ends 32 hours after it starts gets the label of 2 to 3
  days.
\<close>

theorem label_not_by_span_length_counterexample:
  "span (getReservationSpan K_two_days (monthStart (newDate 2025 2 10)) (monthEnd (newDate 2025 2 10))) = 2
   \<and> getReservationContent K_two_days 40 True = ''Kowalski'' @ [CHR 0x0A] @ ''14''
   \<and> span (getReservationSpan K_two_days_late (monthStart (newDate 2025 2 10)) (monthEnd (newDate 2025 2 10))) = 2
   \<and> getReservationContent K_two_days_late 40 True = ''Kowalski J.'' @ [CHR 0x0A] @ ''14-15''"
proof -
  have a: "span (getReservationSpan K_two_days (monthStart (newDate 2025 2 10)) (monthEnd (newDate 2025 2 10))) = 2"
    by code_simp
  have b: "getReservationContent K_two_days 40 True = ''Kowalski'' @ [CHR 0x0A] @ ''14''"
    by code_simp
  have c: "span (getReservationSpan K_two_days_late (monthStart (newDate 2025 2 10)) (monthEnd (newDate 2025 2 10))) = 2"
    by code_simp
  have d: "getReservationContent K_two_days_late 40 True = ''Kowalski J.'' @ [CHR 0x0A] @ ''14-15''"
    by code_simp
  show ?thesis
    by (intro conjI a b c d)
qed

text \<open>
  C3, amended. The label is a function of the reservation and the cell width, with
  thresholds on the elapsed time between start and end: more than 3 days gives last name,
  first name and the full date range with the times; more than 1 and at most 3 days gives
  the last name with the first-name initial (the first name when the cell is at least 100
  wide) and the short range of the two day numbers; at most 1 day gives the last name
  and the day number of the start.
\<close>

theorem label_by_elapsed_days:
  "getReservationContent r cellWidth isMultiDay =
     (let elapsed = end_date r - start_date r;
          lastName = last_name (customer r);
          firstName = first_name (customer r)
      in if elapsed > 3 * msPerDay
         then lastName @ '' '' @ firstName @ [CHR 0x0A]
              @ show_int (getDate (start_date r)) @ ''.'' @ show_int (getMonth (start_date r) + 1)
              @ '' '' @ start_time r @ '' - ''
              @ show_int (getDate (end_date r)) @ ''.'' @ show_int (getMonth (end_date r) + 1)
              @ '' '' @ end_time r
         else if elapsed > msPerDay
         then (if cellWidth < 100 then lastName @ '' '' @ first_char firstName @ ''.''
               else lastName @ '' '' @ firstName) @ [CHR 0x0A]
              @ show_int (getDate (start_date r)) @ ''-'' @ show_int (getDate (end_date r))
         else lastName @ [CHR 0x0A] @ show_int (getDate (start_date r)))"
proof -
  consider (long) "end_date r - start_date r > 3 * msPerDay"
    | (mid) "end_date r - start_date r > msPerDay" "end_date r - start_date r \<le> 3 * msPerDay"
    | (short) "end_date r - start_date r \<le> msPerDay"
    by linarith
  then show ?thesis
  proof cases
    case long
    then show ?thesis
      by (simp add: getReservationContent_def formatDateRange_def formatCustomerName_def
          days_between_ge4 Let_def)
  next
    case mid
    then have "\<not> end_date r - start_date r > 3 * msPerDay" by simp
    with mid show ?thesis
      by (simp add: getReservationContent_def formatDateRange_def
          days_between_ge4 days_between_ge2 days_between_le3 Let_def)
  next
    case short
    then have "\<not> end_date r - start_date r > msPerDay"
      and "\<not> end_date r - start_date r > 3 * msPerDay"
      by (simp_all add: msPerDay_def)
    then show ?thesis
      by (simp add: getReservationContent_def days_between_ge4 days_between_ge2 Let_def)
  qed
qed

theorem label_by_elapsed_days_witness:
  "getReservationContent K_one_day 40 False = ''Kowalski'' @ [CHR 0x0A] @ ''14''"
proof -
  have "getReservationContent K_one_day 40 False =
     (let elapsed = end_date K_one_day - start_date K_one_day;
          lastName = last_name (customer K_one_day);
          firstName = first_name (customer K_one_day)
      in if elapsed > 3 * msPerDay
         then lastName @ '' '' @ firstName @ [CHR 0x0A]
              @ show_int (getDate (start_date K_one_day)) @ ''.''
              @ show_int (getMonth (start_date K_one_day) + 1)
              @ '' '' @ start_time K_one_day @ '' - ''
              @ show_int (getDate (end_date K_one_day)) @ ''.''
              @ show_int (getMonth (end_date K_one_day) + 1)
              @ '' '' @ end_time K_one_day
         else if elapsed > msPerDay
         then (if (40::int) < 100 then lastName @ '' '' @ first_char firstName @ ''.''
               else lastName @ '' '' @ firstName) @ [CHR 0x0A]
              @ show_int (getDate (start_date K_one_day)) @ ''-''
              @ show_int (getDate (end_date K_one_day))
         else lastName @ [CHR 0x0A] @ show_int (getDate (start_date K_one_day)))"
    by (rule label_by_elapsed_days)
  also have "\<dots> = ''Kowalski'' @ [CHR 0x0A] @ ''14''"
    by code_simp
  finally show ?thesis .
qed



section \<open>Drag and drop on the pipeline\<close>








section \<open>Transition requests in flight\<close>

lemma dispatch_StatusClicked:
  "dispatch w (StatusClicked reservationId newStatus)
     = \<lparr>view = view w,
        in_flight = in_flight w @ [Update_reservation_pipeline_status reservationId newStatus]\<rparr>"
  by (simp add: dispatch_def handleStatusChange_def)

lemma burst_in_flight:
  "in_flight (foldl dispatch w (map (StatusClicked reservationId) statuses))
     = in_flight w @ map (Update_reservation_pipeline_status reservationId) statuses"
proof (induction statuses arbitrary: w)
  case Nil
  show ?case by simp
next
  case (Cons st statuses)
  show ?case
    by (simp add: Cons.IH dispatch_StatusClicked)
qed

text \<open>
  C5, as stated, fails: two clicks on the confirmation of the same reservation, the
  second before the call of the first has settled, put two update calls in flight.
\<close>

theorem second_request_is_sent_counterexample:
  "in_flight (foldl dispatch \<lparr>view = board, in_flight = []\<rparr>
      [StatusClicked ''r1'' ''confirmed'', StatusClicked ''r1'' ''confirmed''])
   = [Update_reservation_pipeline_status ''r1'' ''confirmed'',
      Update_reservation_pipeline_status ''r1'' ''confirmed'']"
  by (simp add: dispatch_StatusClicked)

text \<open>
  C5, amended. The pipeline never rejects a transition request locally: of any burst of
  requests for one reservation, issued before any call settles, every request is sent,
  in order, and the view is left as it was. The one local gate is in the customer
  details view: once a status change has been started there, a click on a status button
  does nothing (the buttons are disabled while submitting).
\<close>

theorem requests_are_never_rejected_locally:
  "in_flight (foldl dispatch w (map (StatusClicked reservationId) statuses))
     = in_flight w @ map (Update_reservation_pipeline_status reservationId) statuses
   \<and> view (foldl dispatch w (map (StatusClicked reservationId) statuses)) = view w
   \<and> status_button_click (fst (handleStatusChange_details v newStatus)) newStatus'
     = (fst (handleStatusChange_details v newStatus), [])"
proof -
  have "view (foldl dispatch w (map (StatusClicked reservationId) statuses)) = view w"
    by (induction statuses arbitrary: w) (simp_all add: dispatch_StatusClicked)
  moreover have "status_button_click (fst (handleStatusChange_details v newStatus)) newStatus'
     = (fst (handleStatusChange_details v newStatus), [])"
    by (simp add: handleStatusChange_details_def status_button_click_def split: option.splits)
  ultimately show ?thesis
    using burst_in_flight by simp
qed

section \<open>Change notifications\<close>

text \<open>
  C8. On every change notification the pipeline refetches: the callback sends the one
  call that loads the whole pipeline data and changes nothing but the loading flag. When
  the call resolves without an error, the columns of the view are the columns of the
  fetched data (none when the data has no columns), whatever the columns were before:
  two views that get the same data end with the same columns. When the call fails, the
  columns are left untouched and the failure is reported.
\<close>

theorem notification_resnapshots_pipeline:
  "subscribeToUpdates s ev = (s\<lparr>pl_loading := True\<rparr>, [Get_pipeline_data])
   \<and> columns (loadPipelineData_settled (fst (subscribeToUpdates s ev))
        (Resolved \<lparr>data = Some \<lparr>data_columns = Some cols\<rparr>, error = None\<rparr>)) = cols
   \<and> columns (loadPipelineData_settled (fst (subscribeToUpdates s ev))
        (Resolved \<lparr>data = Some \<lparr>data_columns = None\<rparr>, error = None\<rparr>)) = []
   \<and> columns (loadPipelineData_settled (fst (subscribeToUpdates s ev))
        (Resolved \<lparr>data = None, error = None\<rparr>)) = []
   \<and> columns (loadPipelineData_settled (fst (subscribeToUpdates s ev))
        (Resolved \<lparr>data = d, error = None\<rparr>))
     = columns (loadPipelineData_settled (fst (subscribeToUpdates s' ev'))
        (Resolved \<lparr>data = d, error = None\<rparr>))
   \<and> loadPipelineData_settled (fst (subscribeToUpdates s ev)) (Resolved \<lparr>data = d, error = Some e\<rparr>)
     = s\<lparr>pl_loading := False, pl_error := Some LoadFailed\<rparr>
   \<and> loadPipelineData_settled (fst (subscribeToUpdates s ev)) Thrown
     = s\<lparr>pl_loading := False, pl_error := Some LoadFailed\<rparr>"
  by (simp add: subscribeToUpdates_def loadPipelineData_def loadPipelineData_settled_def
      split: option.splits)

end
